theory Spec2Isabelle
  imports Complex_Main
begin

section \<open>The equity-line cell of the Freqtrade analysis notebook\<close>

text \<open>
  The notebook's only computation of its own is cell \<^verbatim>\<open>In[20]\<close>:
  \<^verbatim>\<open>
  dates = []
  profits = []
  for date_profit in strategy_stats['daily_profit']:
      dates.append(date_profit[0])
      profits.append(date_profit[1])

  equity = 0
  equity_daily = []
  for daily_profit in profits:
      equity_daily.append(equity)
      equity += float(daily_profit)

  df = pd.DataFrame({'dates': dates,'equity_daily': equity_daily})
  \<close>
  Every other cell calls into the \<^verbatim>\<open>freqtrade\<close>, \<^verbatim>\<open>pandas\<close> and \<^verbatim>\<open>plotly\<close> packages.

  The cell is modelled as a transformer of the notebook's global variables. A Python
  exception stops the cell and leaves the globals as they were at that moment, so the
  model returns the raised error (if any) together with the globals.
\<close>

subsection \<open>Values, errors and the builtin \<^verbatim>\<open>float\<close>\<close>

text \<open>
  The daily-profit rows come from a JSON file, so a profit is dynamically typed. The type
  \<open>'f\<close> stands for Python's \<^verbatim>\<open>float\<close>; only its \<open>0\<close> and \<open>+\<close> are used, and no law
  of arithmetic is assumed of them (binary64 addition rounds and is not associative).
\<close>

datatype 'f pyval = PFloat 'f | PInt int | PStr string | PNone

datatype py_error = TypeError | ValueError | OverflowError

text \<open>
  What the builtin \<^verbatim>\<open>float\<close> does on an \<^verbatim>\<open>int\<close> and on a \<^verbatim>\<open>str\<close> belongs to the language,
  not to the notebook, and is a parameter of the model: \<open>from_int n = None\<close> when
  \<^verbatim>\<open>float(n)\<close> raises \<^verbatim>\<open>OverflowError\<close> and \<open>from_str s = None\<close> when \<^verbatim>\<open>float(s)\<close> raises
  \<^verbatim>\<open>ValueError\<close>.
\<close>

record 'f float_builtin =
  from_int :: "int \<Rightarrow> 'f option"
  from_str :: "string \<Rightarrow> 'f option"

fun py_float :: "'f float_builtin \<Rightarrow> 'f pyval \<Rightarrow> py_error + 'f" where
  "py_float fb (PFloat x) = Inr x"
| "py_float fb (PInt n) = (case from_int fb n of None \<Rightarrow> Inl OverflowError | Some x \<Rightarrow> Inr x)"
| "py_float fb (PStr s) = (case from_str fb s of None \<Rightarrow> Inl ValueError | Some x \<Rightarrow> Inr x)"
| "py_float fb PNone = Inl TypeError"

subsection \<open>The notebook globals written by the cell\<close>

record ('d, 'f) notebook =
  dates :: "'d list"
  profits :: "'f pyval list"
  equity :: 'f
  equity_daily :: "'f list"
  df :: "('d \<times> 'f) list"

text \<open>
  \<^verbatim>\<open>pd.DataFrame\<close> of a dict of two columns: one row per index; columns of different
  lengths raise \<^verbatim>\<open>ValueError\<close>.
\<close>

definition DataFrame :: "'d list \<Rightarrow> 'f list \<Rightarrow> py_error + ('d \<times> 'f) list" where
  "DataFrame ds es = (if length ds = length es then Inr (zip ds es) else Inl ValueError)"

subsection \<open>The two loops and the cell\<close>

text \<open>
  A row of \<^verbatim>\<open>daily_profit\<close> is the pair \<open>(date, profit_abs)\<close> of the data model, so
  \<^verbatim>\<open>date_profit[0]\<close> and \<^verbatim>\<open>date_profit[1]\<close> are its two components and cannot be out of
  range. The date has any type \<open>'d\<close>: the cell only copies it. The first loop splits the
  rows into the two columns.
\<close>

fun split_loop :: "('d \<times> 'f pyval) list \<Rightarrow> ('d, 'f) notebook \<Rightarrow> ('d, 'f) notebook" where
  "split_loop [] g = g"
| "split_loop (date_profit # rest) g =
     split_loop rest
       ((g\<lparr>dates := dates g @ [fst date_profit]\<rparr>)\<lparr>profits := profits g @ [snd date_profit]\<rparr>)"

text \<open>
  The second loop appends the running total \<^emph>\<open>before\<close> adding the day's profit. When
  \<^verbatim>\<open>float\<close> raises, the append of that iteration has already happened. The total starts
  as the \<^verbatim>\<open>int\<close> \<^verbatim>\<open>0\<close>, which Python converts to the float zero at the first addition; both
  are the \<open>0\<close> of \<open>'f\<close>.
\<close>

fun equity_loop ::
  "'f::{zero,plus} float_builtin \<Rightarrow> 'f pyval list \<Rightarrow> ('d, 'f) notebook
    \<Rightarrow> py_error option \<times> ('d, 'f) notebook" where
  "equity_loop fb [] g = (None, g)"
| "equity_loop fb (daily_profit # rest) g =
     (let g1 = g\<lparr>equity_daily := equity_daily g @ [equity g]\<rparr>
      in case py_float fb daily_profit of
           Inl e \<Rightarrow> (Some e, g1)
         | Inr x \<Rightarrow> equity_loop fb rest (g1\<lparr>equity := equity g1 + x\<rparr>))"

definition cell_In20 ::
  "'f::{zero,plus} float_builtin \<Rightarrow> ('d \<times> 'f pyval) list \<Rightarrow> ('d, 'f) notebook
    \<Rightarrow> py_error option \<times> ('d, 'f) notebook" where
  "cell_In20 fb daily_profit g =
     (let g1 = (g\<lparr>dates := []\<rparr>)\<lparr>profits := []\<rparr>;
          g2 = split_loop daily_profit g1;
          g3 = (g2\<lparr>equity := 0\<rparr>)\<lparr>equity_daily := []\<rparr>
      in case equity_loop fb (profits g3) g3 of
           (Some e, g4) \<Rightarrow> (Some e, g4)
         | (None, g4) \<Rightarrow>
             (case DataFrame (dates g4) (equity_daily g4) of
                Inl e \<Rightarrow> (Some e, g4)
              | Inr frame \<Rightarrow> (None, g4\<lparr>df := frame\<rparr>)))"

subsection \<open>The specification's view: sums of strictly prior days\<close>

text \<open>
  \<open>prior_sum xs i\<close> is the sum of \<open>xs\<close> over the indices \<open>0..i-1\<close>, added from the left
  starting at \<open>0\<close>; \<open>prior_sums xs\<close> lists it for every index of \<open>xs\<close>.
\<close>

definition prior_sum :: "'f::{zero,plus} list \<Rightarrow> nat \<Rightarrow> 'f" where
  "prior_sum xs i = foldl (+) 0 (take i xs)"

definition prior_sums :: "'f::{zero,plus} list \<Rightarrow> 'f list" where
  "prior_sums xs = map (prior_sum xs) [0..<length xs]"

text \<open>
  The loop without the notebook: a left fold over the results of \<^verbatim>\<open>float\<close>, with the
  running total and the output list threaded through.
\<close>

fun accumulate ::
  "(py_error + 'f::{zero,plus}) list \<Rightarrow> 'f \<Rightarrow> 'f list \<Rightarrow> py_error option \<times> 'f \<times> 'f list" where
  "accumulate [] acc out = (None, acc, out)"
| "accumulate (Inl e # rest) acc out = (Some e, acc, out @ [acc])"
| "accumulate (Inr x # rest) acc out = accumulate rest (acc + x) (out @ [acc])"

text \<open>Rows whose profits are floats, as the data model types them.\<close>

definition typed_rows :: "('d \<times> 'f) list \<Rightarrow> ('d \<times> 'f pyval) list" where
  "typed_rows rows = map (\<lambda>r. (fst r, PFloat (snd r))) rows"

text \<open>
  The claim about date order speaks of series that are ascending by date: no row's date
  precedes the date of the row before it.
\<close>

definition ascending_by_date :: "('d::linorder \<times> 'v) list \<Rightarrow> bool" where
  "ascending_by_date rows = sorted (map fst rows)"

subsection \<open>Concrete inputs for the worked examples\<close>

text \<open>
  The examples run on \<open>real\<close> numbers standing for the floats they name; the values are
  small integers, on which binary64 addition is exact. \<open>literal_float\<close> tabulates the
  builtin \<^verbatim>\<open>float\<close> at the string literals the examples use (\<^verbatim>\<open>float('10') == 10.0\<close> and so
  on). \<open>used_notebook\<close> is a notebook in which earlier cells and runs have left values in
  every global.
\<close>

definition literal_float :: "real float_builtin" where
  "literal_float =
     \<lparr>from_int = (\<lambda>n. Some (of_int n)),
      from_str = map_of [(''10'', 10), (''-5'', - 5), (''20'', 20)]\<rparr>"

definition used_notebook :: "(nat, real) notebook" where
  "used_notebook =
     \<lparr>dates = [7], profits = [PNone], equity = 99, equity_daily = [1, 2], df = [(7, 1)]\<rparr>"

section \<open>Properties of the loops\<close>

lemma split_loop_columns:
  "split_loop rows g = g\<lparr>dates := dates g @ map fst rows, profits := profits g @ map snd rows\<rparr>"
  by (induction rows arbitrary: g) simp_all

text \<open>The stateful loop computes the fold \<open>accumulate\<close> on the results of \<^verbatim>\<open>float\<close>.\<close>

lemma equity_loop_accumulate:
  "equity_loop fb ps g =
     (case accumulate (map (py_float fb) ps) (equity g) (equity_daily g) of
        (r, acc, out) \<Rightarrow> (r, g\<lparr>equity := acc, equity_daily := out\<rparr>))"
proof (induction ps arbitrary: g)
  case Nil
  show ?case by simp
next
  case (Cons p ps)
  show ?case
  proof (cases "py_float fb p")
    case (Inl e)
    then show ?thesis by simp
  next
    case (Inr x)
    then show ?thesis by (simp add: Cons.IH split: prod.splits)
  qed
qed

lemma accumulate_floats:
  "accumulate (map Inr xs) acc out =
     (None, foldl (+) acc xs, out @ map (\<lambda>i. foldl (+) acc (take i xs)) [0..<length xs])"
proof (induction xs arbitrary: acc out)
  case Nil
  show ?case by simp
next
  case (Cons x xs)
  have "map (\<lambda>i. foldl (+) acc (take i (x # xs))) [0..<length (x # xs)] =
        acc # map (\<lambda>i. foldl (+) (acc + x) (take i xs)) [0..<length xs]"
    by (simp add: upt_conv_Cons map_Suc_upt [symmetric] comp_def del: upt_Suc)
  then show ?case by (simp add: Cons.IH del: upt_Suc)
qed

lemma accumulate_prior_sums:
  "accumulate (map Inr xs) 0 [] = (None, foldl (+) 0 xs, prior_sums xs)"
  by (simp add: accumulate_floats prior_sums_def prior_sum_def)

lemma accumulate_None_length:
  "accumulate rs acc out = (None, acc', out') \<Longrightarrow> length out' = length out + length rs"
  by (induction rs acc out rule: accumulate.induct) auto

lemma accumulate_None_floats:
  "accumulate rs acc out = (None, acc', out') \<Longrightarrow> \<exists>xs. rs = map Inr xs"
proof (induction rs acc out rule: accumulate.induct)
  case (1 acc out)
  then show ?case by simp
next
  case (2 e rest acc out)
  then show ?case by simp
next
  case (3 x rest acc out)
  then obtain xs where "rest = map Inr xs" by auto
  then show ?case by (intro exI [of _ "x # xs"]) simp
qed

text \<open>
  The whole cell in one equation: every global it binds is overwritten with a value
  computed from the rows alone; \<^verbatim>\<open>df\<close> is bound only when no \<^verbatim>\<open>float\<close> call raised.
\<close>

lemma cell_In20_accumulate:
  "cell_In20 fb rows g =
     (case accumulate (map (\<lambda>r. py_float fb (snd r)) rows) 0 [] of
        (None, acc, out) \<Rightarrow>
          (None, g\<lparr>dates := map fst rows, profits := map snd rows, equity := acc,
                   equity_daily := out, df := zip (map fst rows) out\<rparr>)
      | (Some e, acc, out) \<Rightarrow>
          (Some e, g\<lparr>dates := map fst rows, profits := map snd rows, equity := acc,
                     equity_daily := out\<rparr>))"
proof (cases "accumulate (map (\<lambda>r. py_float fb (snd r)) rows) 0 []")
  case (fields r acc out)
  show ?thesis
  proof (cases r)
    case None
    with fields have "length out = length rows"
      using accumulate_None_length by fastforce
    with fields None show ?thesis
      by (simp add: cell_In20_def split_loop_columns equity_loop_accumulate DataFrame_def comp_def)
  next
    case (Some e)
    with fields show ?thesis
      by (simp add: cell_In20_def split_loop_columns equity_loop_accumulate comp_def)
  qed
qed

lemma cell_In20_floats:
  assumes "map (\<lambda>r. py_float fb (snd r)) rows = map Inr xs"
  shows "cell_In20 fb rows g =
     (None, g\<lparr>dates := map fst rows, profits := map snd rows, equity := foldl (+) 0 xs,
              equity_daily := prior_sums xs, df := zip (map fst rows) (prior_sums xs)\<rparr>)"
  by (simp add: cell_In20_accumulate assms accumulate_prior_sums)

lemma typed_rows_floats:
  "map (\<lambda>r. py_float fb (snd r)) (typed_rows rows) = map Inr (map snd rows)"
  by (simp add: typed_rows_def comp_def)

lemma typed_rows_dates: "map fst (typed_rows rows) = map fst rows"
  by (simp add: typed_rows_def comp_def)

lemma length_prior_sums: "length (prior_sums xs) = length xs"
  by (simp add: prior_sums_def)

lemma prior_sums_nth: "i < length xs \<Longrightarrow> prior_sums xs ! i = prior_sum xs i"
  by (simp add: prior_sums_def)

lemma prior_sum_Suc: "i < length xs \<Longrightarrow> prior_sum xs (Suc i) = prior_sum xs i + xs ! i"
  by (simp add: prior_sum_def take_Suc_conv_app_nth)

text \<open>
  Where addition is associative and commutative, the left fold is the usual sum over
  the indices below \<open>i\<close>.
\<close>

lemma foldl_plus_sum_list: "foldl (+) a xs = a + sum_list (xs :: 'a::monoid_add list)"
  by (induction xs arbitrary: a) (simp_all add: add.assoc)

lemma prior_sum_sum:
  fixes xs :: "'a::comm_monoid_add list"
  assumes "i \<le> length xs"
  shows "prior_sum xs i = (\<Sum>j<i. xs ! j)"
proof -
  have "prior_sum xs i = sum_list (take i xs)"
    by (simp add: prior_sum_def foldl_plus_sum_list)
  also have "\<dots> = (\<Sum>j = 0..<length (take i xs). take i xs ! j)"
    by (rule sum_list_sum_nth)
  also have "\<dots> = (\<Sum>j<i. xs ! j)"
    using assms by (simp add: min_absorb2 lessThan_atLeast0)
  finally show ?thesis .
qed

section \<open>The claims\<close>

text \<open>
  C1. For every series of (date, profit) rows, the equity value the cell puts at index
  \<open>i\<close> is the sum of the profits at the indices \<open>0..i-1\<close>: the output pairs each date with
  the sum of the strictly prior days. For the daily profits \<open>[10, -5, 20]\<close> the equity
  values are \<open>[0, 10, 5]\<close>.
\<close>

theorem equity_is_prior_sum:
  "fst (cell_In20 fb (typed_rows rows) g) = None
   \<and> df (snd (cell_In20 fb (typed_rows rows) g)) = zip (map fst rows) (prior_sums (map snd rows))
   \<and> equity_daily (snd (cell_In20 fb (typed_rows rows) g))
       = map (\<lambda>i. foldl (+) 0 (take i (map snd rows))) [0..<length rows]
   \<and> df (snd (cell_In20 fb' (typed_rows [(d1, 10), (d2, - 5), (d3, 20 :: real)]) g'))
       = [(d1, 0), (d2, 10), (d3, 5)]"
proof -
  have general: "cell_In20 fb (typed_rows rows) g =
      (None, g\<lparr>dates := map fst (typed_rows rows), profits := map snd (typed_rows rows),
               equity := foldl (+) 0 (map snd rows), equity_daily := prior_sums (map snd rows),
               df := zip (map fst (typed_rows rows)) (prior_sums (map snd rows))\<rparr>)"
    for fb :: "'x::{zero,plus} float_builtin" and rows :: "('y \<times> 'x) list" and g
    by (rule cell_In20_floats) (rule typed_rows_floats)
  have sums: "prior_sums [10, - 5, 20 :: real] = [0, 10, 5]"
    by (simp add: prior_sums_def prior_sum_def upt_rec)
  show ?thesis
    by (simp add: general typed_rows_dates sums) (simp add: prior_sums_def prior_sum_def)
qed

text \<open>
  C5. On an empty series the cell raises nothing and its output is empty; on a single
  row \<open>(date, p)\<close> the output is exactly \<open>[(date, 0)]\<close>.
\<close>

theorem empty_and_single_row:
  "cell_In20 fb [] g =
     (None, g\<lparr>dates := [], profits := [], equity := 0, equity_daily := [], df := []\<rparr>)
   \<and> fst (cell_In20 fb [(d, PFloat p)] g) = None
   \<and> df (snd (cell_In20 fb [(d, PFloat p)] g)) = [(d, 0)]"
  by (simp add: cell_In20_accumulate)

text \<open>
  C9. Whenever the cell produces its output, the output has as many rows as the input
  and its \<open>i\<close>-th date is the input's \<open>i\<close>-th date, whatever the dates are: no row is
  skipped, added or moved, and a gap between two input dates is the same gap in the
  output.
\<close>

theorem dates_follow_input:
  assumes "fst (cell_In20 fb rows g) = None"
  shows "length (df (snd (cell_In20 fb rows g))) = length rows
       \<and> map fst (df (snd (cell_In20 fb rows g))) = map fst rows
       \<and> dates (snd (cell_In20 fb rows g)) = map fst rows"
proof (cases "accumulate (map (\<lambda>r. py_float fb (snd r)) rows) 0 []")
  case (fields r acc out)
  with assms have r: "r = None"
    by (cases r) (simp_all add: cell_In20_accumulate)
  with fields have "length out = length rows"
    using accumulate_None_length by fastforce
  with fields r show ?thesis
    by (simp add: cell_In20_accumulate)
qed

theorem dates_follow_input_witness:
  "fst (cell_In20 literal_float [(1, PFloat 10), (5, PStr ''-5''), (9, PInt 20)] used_notebook) = None
   \<and> map fst (df (snd (cell_In20 literal_float
        [(1, PFloat 10), (5, PStr ''-5''), (9, PInt 20)] used_notebook))) = [1, 5, 9]"
proof -
  have ok: "fst (cell_In20 literal_float
      [(1, PFloat 10), (5, PStr ''-5''), (9, PInt 20)] used_notebook) = None"
    by (simp add: cell_In20_accumulate literal_float_def)
  show ?thesis
    using ok dates_follow_input [OF ok] by simp
qed

text \<open>
  C10. Each profit goes through \<^verbatim>\<open>float\<close> just before it is added. So whenever \<^verbatim>\<open>float\<close>
  accepts every profit of the series (numbers, or strings that \<^verbatim>\<open>float\<close> can read), the
  cell raises nothing, its output is the one it gives on the corresponding float values,
  it starts at \<open>0\<close>, and each further element is the previous one plus the \<^verbatim>\<open>float\<close> of the
  previous profit, added from left to right.
\<close>

theorem float_coercion:
  assumes "map (\<lambda>r. py_float fb (snd r)) rows = map Inr xs"
  shows "fst (cell_In20 fb rows g) = None
       \<and> df (snd (cell_In20 fb rows g))
           = df (snd (cell_In20 fb (typed_rows (zip (map fst rows) xs)) g))
       \<and> length (equity_daily (snd (cell_In20 fb rows g))) = length rows
       \<and> (rows \<noteq> [] \<longrightarrow> equity_daily (snd (cell_In20 fb rows g)) ! 0 = 0)
       \<and> (\<forall>i. Suc i < length rows \<longrightarrow>
             equity_daily (snd (cell_In20 fb rows g)) ! Suc i
               = equity_daily (snd (cell_In20 fb rows g)) ! i + xs ! i)"
proof -
  have len: "length xs = length rows"
    using assms by (metis length_map)
  have cell: "cell_In20 fb rows g =
      (None, g\<lparr>dates := map fst rows, profits := map snd rows, equity := foldl (+) 0 xs,
               equity_daily := prior_sums xs, df := zip (map fst rows) (prior_sums xs)\<rparr>)"
    by (rule cell_In20_floats) (rule assms)
  let ?rows' = "typed_rows (zip (map fst rows) xs)"
  have "map (\<lambda>r. py_float fb (snd r)) ?rows' = map Inr xs"
    by (simp add: typed_rows_floats len)
  then have cell': "cell_In20 fb ?rows' g =
      (None, g\<lparr>dates := map fst ?rows', profits := map snd ?rows', equity := foldl (+) 0 xs,
               equity_daily := prior_sums xs, df := zip (map fst ?rows') (prior_sums xs)\<rparr>)"
    by (rule cell_In20_floats)
  have dates': "map fst ?rows' = map fst rows"
    by (simp add: typed_rows_dates len)
  have first: "rows \<noteq> [] \<longrightarrow> prior_sums xs ! 0 = 0"
    using len by (simp add: prior_sums_nth prior_sum_def)
  have step: "\<forall>i. Suc i < length rows \<longrightarrow> prior_sums xs ! Suc i = prior_sums xs ! i + xs ! i"
    using len by (simp add: prior_sums_nth prior_sum_Suc)
  show ?thesis
    using first step by (simp add: cell cell' dates' length_prior_sums len)
qed

theorem float_coercion_witness:
  "map (\<lambda>r. py_float literal_float (snd r)) [(1, PStr ''10''), (2, PFloat (- 5)), (3, PInt 20)]
     = map Inr [10, - 5, 20]
   \<and> fst (cell_In20 literal_float [(1, PStr ''10''), (2, PFloat (- 5)), (3, PInt 20)]
        used_notebook) = None
   \<and> df (snd (cell_In20 literal_float [(1, PStr ''10''), (2, PFloat (- 5)), (3, PInt 20)]
        used_notebook))
     = df (snd (cell_In20 literal_float [(1, PFloat 10), (2, PFloat (- 5)), (3, PFloat 20)]
        used_notebook))"
proof -
  have accepted: "map (\<lambda>r. py_float literal_float (snd r))
      [(1::nat, PStr ''10''), (2, PFloat (- 5)), (3, PInt 20)] = map Inr [10, - 5, 20]"
    by (simp add: literal_float_def)
  show ?thesis
    using accepted float_coercion [OF accepted, of used_notebook]
    by (simp add: typed_rows_def)
qed

text \<open>
  C6. Running the cell again on the same series gives the same result: every global the
  cell reads is one it has just re-initialised, so nothing left by an earlier run or
  cell is carried over, and the values it computes are those of the pure left fold
  \<open>accumulate\<close> started from \<open>0\<close> and the empty list.
\<close>

theorem recomputation_identical:
  "cell_In20 fb rows (snd (cell_In20 fb rows g)) = cell_In20 fb rows g
   \<and> fst (cell_In20 fb rows g') = fst (cell_In20 fb rows g)
   \<and> equity_daily (snd (cell_In20 fb rows g')) = equity_daily (snd (cell_In20 fb rows g))
   \<and> (fst (cell_In20 fb rows g) = None \<longrightarrow>
        snd (cell_In20 fb rows (g' :: ('d, 'f::{zero,plus}) notebook)) = snd (cell_In20 fb rows g))
   \<and> (fst (cell_In20 fb rows g), equity (snd (cell_In20 fb rows g)),
        equity_daily (snd (cell_In20 fb rows g)))
       = accumulate (map (\<lambda>r. py_float fb (snd r)) rows) 0 []"
proof (cases "accumulate (map (\<lambda>r. py_float fb (snd r)) rows) 0 []")
  case (fields r acc out)
  show ?thesis
  proof (cases r)
    case None
    with fields show ?thesis
      by (cases g, cases g') (simp add: cell_In20_accumulate)
  next
    case (Some e)
    with fields show ?thesis
      by (simp add: cell_In20_accumulate)
  qed
qed

theorem recomputation_identical_witness:
  "fst (cell_In20 literal_float [(1, PFloat 10), (2, PFloat (- 5)), (3, PFloat 20)]
      used_notebook) = None
   \<and> snd (cell_In20 literal_float [(1, PFloat 10), (2, PFloat (- 5)), (3, PFloat 20)]
        \<lparr>dates = [], profits = [], equity = 0, equity_daily = [], df = []\<rparr>)
     = snd (cell_In20 literal_float [(1, PFloat 10), (2, PFloat (- 5)), (3, PFloat 20)]
        used_notebook)"
proof -
  have ok: "fst (cell_In20 literal_float
      [(1::nat, PFloat 10), (2, PFloat (- 5)), (3, PFloat 20)] used_notebook) = None"
    by (simp add: cell_In20_accumulate)
  show ?thesis
    using ok recomputation_identical [of literal_float
        "[(1::nat, PFloat 10), (2, PFloat (- 5)), (3, PFloat 20)]" used_notebook
        "\<lparr>dates = [], profits = [], equity = 0, equity_daily = [], df = []\<rparr>"]
    by blast
qed

text \<open>
  C3, as the code has it. The cell never looks at the dates: whether it raises, and the
  equity values it computes, depend on the profit column alone, so no series is rejected
  for the order of its dates; every series of float profits, ascending or not, gives its
  output in the order of the input rows.
\<close>

theorem dates_never_inspected:
  "(map snd rows' = map snd rows \<longrightarrow>
      fst (cell_In20 fb rows' g) = fst (cell_In20 fb rows g)
      \<and> equity_daily (snd (cell_In20 fb rows' g)) = equity_daily (snd (cell_In20 fb rows g)))
   \<and> fst (cell_In20 fb (typed_rows frows) g) = None
   \<and> map fst (df (snd (cell_In20 fb (typed_rows frows) g))) = map fst frows"
proof -
  have same: "map (\<lambda>r. py_float fb (snd r)) rows' = map (\<lambda>r. py_float fb (snd r)) rows"
    if "map snd rows' = map snd rows"
  proof -
    have "map (py_float fb) (map snd rows') = map (py_float fb) (map snd rows)"
      using that by simp
    then show ?thesis by (simp add: comp_def)
  qed
  have typed: "cell_In20 fb (typed_rows frows) g =
      (None, g\<lparr>dates := map fst (typed_rows frows), profits := map snd (typed_rows frows),
               equity := foldl (+) 0 (map snd frows), equity_daily := prior_sums (map snd frows),
               df := zip (map fst (typed_rows frows)) (prior_sums (map snd frows))\<rparr>)"
    by (rule cell_In20_floats) (rule typed_rows_floats)
  show ?thesis
    by (auto simp add: typed typed_rows_dates length_prior_sums
        cell_In20_accumulate [of fb rows'] cell_In20_accumulate [of fb rows] same
        split: prod.splits option.splits)
qed

theorem dates_never_inspected_witness:
  "map snd [(2::nat, PFloat 10), (1, PFloat (- 5 :: real))] = map snd [(1::nat, PFloat 10), (2, PFloat (- 5))]
   \<and> equity_daily (snd (cell_In20 literal_float [(2, PFloat 10), (1, PFloat (- 5))] used_notebook))
     = equity_daily (snd (cell_In20 literal_float [(1, PFloat 10), (2, PFloat (- 5))] used_notebook))"
  using dates_never_inspected [of "[(2::nat, PFloat 10), (1, PFloat (- 5 :: real))]"
      "[(1::nat, PFloat 10), (2, PFloat (- 5))]" literal_float used_notebook]
  by simp

text \<open>
  C3, as the specification states it, fails: the descending series \<open>[(2, 10), (1, -5)]\<close>
  is not ascending by date, yet the cell raises nothing and binds its output.
\<close>

theorem unordered_input_accepted:
  "\<not> ascending_by_date [(2::nat, PFloat 10), (1, PFloat (- 5 :: real))]
   \<and> cell_In20 literal_float [(2, PFloat 10), (1, PFloat (- 5))] used_notebook
     = (None, \<lparr>dates = [2, 1], profits = [PFloat 10, PFloat (- 5)], equity = 5,
                equity_daily = [0, 10], df = [(2, 0), (1, 10)]\<rparr>)"
  by (simp add: ascending_by_date_def cell_In20_accumulate used_notebook_def)

end
